theory Spec2Isabelle
  imports Main "HOL-Library.Word"
begin

unbundle bit_operations_syntax

section \<open>Go values\<close>

text \<open>
  A Go call either returns or panics. The three panics that the code of the network
  whitelist can raise are an index out of range (\<open>in[0]\<close> on an empty slice), slice
  bounds out of range (\<open>in[1:0]\<close>) and a nil pointer dereference (a method of
  \<open>*net.IPNet\<close> that reads the fields of a nil receiver). An \<open>error\<close> made by
  \<open>errors.New\<close> is its message; the nil error is \<open>None\<close>.
\<close>

type_synonym byte = "8 word"

datatype panic = IndexOutOfRange | SliceBoundsOutOfRange | NilDereference

type_synonym 'a outcome = "panic + 'a"

type_synonym error = string

subsection \<open>Package strings\<close>

text \<open>
  \<open>strings.TrimSpace\<close> removes the leading and the trailing white space of a string, as
  Unicode defines it: the six ASCII characters tab, line feed, vertical tab, form feed,
  carriage return and space, and the code points U+0085, U+00A0, U+1680, U+2000 to U+200A,
  U+2028, U+2029, U+202F, U+205F and U+3000, which a Go string holds in UTF-8 as two or three
  bytes.
\<close>

definition asciiSpace :: "char \<Rightarrow> bool" where
  "asciiSpace c =
     (c = CHR 0x09 \<or> c = CHR 0x0A \<or> c = CHR 0x0B \<or> c = CHR 0x0C \<or> c = CHR 0x0D \<or> c = CHR 0x20)"

definition isSpace2 :: "char \<Rightarrow> char \<Rightarrow> bool" where
  "isSpace2 a b = (a = CHR 0xC2 \<and> (b = CHR 0x85 \<or> b = CHR 0xA0))"

definition isSpace3 :: "char \<Rightarrow> char \<Rightarrow> char \<Rightarrow> bool" where
  "isSpace3 a b c =
     ((a = CHR 0xE1 \<and> b = CHR 0x9A \<and> c = CHR 0x80) \<or>
      (a = CHR 0xE2 \<and> b = CHR 0x80 \<and>
         (((0x80::nat) \<le> of_char c \<and> of_char c \<le> (0x8A::nat)) \<or>
          c = CHR 0xA8 \<or> c = CHR 0xA9 \<or> c = CHR 0xAF)) \<or>
      (a = CHR 0xE2 \<and> b = CHR 0x81 \<and> c = CHR 0x9F) \<or>
      (a = CHR 0xE3 \<and> b = CHR 0x80 \<and> c = CHR 0x80))"

fun TrimLeft :: "string \<Rightarrow> string" where
  "TrimLeft [] = []"
| "TrimLeft (a # s) =
     (if asciiSpace a then TrimLeft s
      else case s of
        [] \<Rightarrow> a # s
      | b # t \<Rightarrow>
          if isSpace2 a b then TrimLeft t
          else (case t of
                  [] \<Rightarrow> a # s
                | c # u \<Rightarrow> if isSpace3 a b c then TrimLeft u else a # s))"

text \<open>The same scan from the end of the string, on the reversed bytes.\<close>

fun TrimLeftRev :: "string \<Rightarrow> string" where
  "TrimLeftRev [] = []"
| "TrimLeftRev (a # s) =
     (if asciiSpace a then TrimLeftRev s
      else case s of
        [] \<Rightarrow> a # s
      | b # t \<Rightarrow>
          if isSpace2 b a then TrimLeftRev t
          else (case t of
                  [] \<Rightarrow> a # s
                | c # u \<Rightarrow> if isSpace3 c b a then TrimLeftRev u else a # s))"

definition TrimRight :: "string \<Rightarrow> string" where
  "TrimRight s = rev (TrimLeftRev (rev s))"

definition TrimSpace :: "string \<Rightarrow> string" where
  "TrimSpace s = TrimRight (TrimLeft s)"

text \<open>
  \<open>strings.Split(s, sep)\<close> for a separator of one byte: the substrings between the
  separators, so one more than there are separators; the empty string gives one empty
  substring.
\<close>

fun Split :: "string \<Rightarrow> char \<Rightarrow> string list" where
  "Split [] sep = [[]]"
| "Split (c # s) sep =
     (if c = sep then [] # Split s sep
      else case Split s sep of
        [] \<Rightarrow> [[c]]
      | t # ts \<Rightarrow> (c # t) # ts)"

fun Join :: "string list \<Rightarrow> string \<Rightarrow> string" where
  "Join [] sep = []"
| "Join [s] sep = s"
| "Join (s # t # ss) sep = s @ sep @ Join (t # ss) sep"

subsection \<open>Package net, and what the whitelist calls\<close>

text \<open>
  \<open>net.IP\<close> is a byte slice and \<open>net.IPNet\<close> a struct of an address and a mask. A
  \<open>*net.IPNet\<close> is an \<open>IPNet option\<close>, \<open>None\<close> the nil pointer.
\<close>

type_synonym IP = "byte list"

record IPNet =
  IP :: IP
  Mask :: "byte list"

text \<open>
  The functions that the whitelist calls and does not define are parameters of the model:
  \<^item> \<open>validIP\<close>, of the package's file whitelist.go;
  \<^item> \<open>net.ParseCIDR\<close>, with \<open>None\<close> for a parse error (only the network it returns is used);
  \<^item> \<open>(*net.IPNet).Contains\<close> on a receiver that is not nil (on the nil pointer it reads
    the receiver's fields first, and panics);
  \<^item> \<open>(*net.IPNet).String\<close>, which takes the pointer: it answers \<open><nil>\<close> on nil;
  \<^item> \<open>json.Unmarshal\<close> into a \<open>[]string\<close>, with the error's message on the left.
\<close>

record env =
  validIP :: "IP \<Rightarrow> bool"
  net_ParseCIDR :: "string \<Rightarrow> IPNet option"
  IPNet_Contains :: "IPNet \<Rightarrow> IP \<Rightarrow> bool"
  IPNet_String :: "IPNet option \<Rightarrow> string"
  json_Unmarshal :: "string \<Rightarrow> error + string list"

section \<open>The network whitelist\<close>

text \<open>
  The field \<open>jsonFormat\<close> is an int that \<open>MarshalJSON\<close> compares with the constants
  \<open>JsonFormatCompatibility\<close> and \<open>JsonFormatNew\<close> of whitelist.go; every other value is
  \<open>JsonFormatOther\<close>. The lock is left out: the model runs one call at a time.
\<close>

datatype JsonFormat = JsonFormatCompatibility | JsonFormatNew | JsonFormatOther

record BasicNet =
  jsonFormat :: JsonFormat
  whitelist :: "IPNet option list"

fun scan_whitelist :: "env \<Rightarrow> IPNet option list \<Rightarrow> IP \<Rightarrow> bool outcome" where
  "scan_whitelist E [] ip = Inr False"
| "scan_whitelist E (None # ns) ip = Inl NilDereference"
| "scan_whitelist E (Some n # ns) ip =
     (if IPNet_Contains E n ip then Inr True else scan_whitelist E ns ip)"

definition BasicNet_Permitted :: "env \<Rightarrow> BasicNet \<Rightarrow> IP \<Rightarrow> bool outcome" where
  "BasicNet_Permitted E wl ip =
     (if \<not> validIP E ip then Inr False else scan_whitelist E (whitelist wl) ip)"

definition BasicNet_Add :: "IPNet option \<Rightarrow> BasicNet \<Rightarrow> BasicNet" where
  "BasicNet_Add n wl =
     (case n of None \<Rightarrow> wl | Some _ \<Rightarrow> wl\<lparr>whitelist := whitelist wl @ [n]\<rparr>)"

text \<open>The loop of \<open>Remove\<close>: the index of the first entry with the string of \<open>n\<close>.\<close>

fun remove_index :: "env \<Rightarrow> IPNet option \<Rightarrow> IPNet option list \<Rightarrow> nat \<Rightarrow> nat option" where
  "remove_index E n [] i = None"
| "remove_index E n (e # es) i =
     (if IPNet_String E e = IPNet_String E n then Some i else remove_index E n es (Suc i))"

definition BasicNet_Remove :: "env \<Rightarrow> IPNet option \<Rightarrow> BasicNet \<Rightarrow> BasicNet" where
  "BasicNet_Remove E n wl =
     (case n of
        None \<Rightarrow> wl
      | Some _ \<Rightarrow>
          (case remove_index E n (whitelist wl) 0 of
             None \<Rightarrow> wl
           | Some index \<Rightarrow>
               wl\<lparr>whitelist := take index (whitelist wl) @ drop (index + 1) (whitelist wl)\<rparr>))"

definition NewBasicNet2 :: "JsonFormat \<Rightarrow> BasicNet" where
  "NewBasicNet2 f = \<lparr>jsonFormat = f, whitelist = []\<rparr>"

definition NewBasicNet :: BasicNet where
  "NewBasicNet = NewBasicNet2 JsonFormatCompatibility"

definition BasicNet_MarshalJSON :: "env \<Rightarrow> BasicNet \<Rightarrow> error + string" where
  "BasicNet_MarshalJSON E wl =
     (let ss = map (IPNet_String E) (whitelist wl) in
      case jsonFormat wl of
        JsonFormatCompatibility \<Rightarrow> Inr (''\"'' @ Join ss '','' @ ''\"'')
      | JsonFormatNew \<Rightarrow>
          if length ss > 0 then Inr (''[\"'' @ Join ss ''\",\"'' @ ''\"]'') else Inr ''[]''
      | JsonFormatOther \<Rightarrow> Inl ''whitelist.Basic: unsupported JSON format'')"

text \<open>
  The loop of \<open>UnmarshalJSON\<close> over \<open>nets\<close>, from index \<open>i\<close>, on the slice \<open>ws\<close> that
  \<open>make\<close> filled with nil pointers: an address that is empty once trimmed is counted and
  its slot is left as it is; a parse error ends the loop with the address; every other
  address is stored at its own index.
\<close>

fun fill_whitelist ::
  "env \<Rightarrow> string list \<Rightarrow> nat \<Rightarrow> IPNet option list \<Rightarrow> nat \<Rightarrow> string + (IPNet option list \<times> nat)" where
  "fill_whitelist E [] i ws skipped = Inr (ws, skipped)"
| "fill_whitelist E (s # nets) i ws skipped =
     (let addr = TrimSpace s in
      if addr = [] then fill_whitelist E nets (Suc i) ws (Suc skipped)
      else case net_ParseCIDR E addr of
        None \<Rightarrow> Inl addr
      | Some n \<Rightarrow> fill_whitelist E nets (Suc i) (ws[i := Some n]) skipped)"

text \<open>The second half of \<open>UnmarshalJSON\<close>, under the lock.\<close>

definition store_nets :: "env \<Rightarrow> string list \<Rightarrow> BasicNet \<Rightarrow> error option \<times> BasicNet" where
  "store_nets E nets wl =
     (case fill_whitelist E nets 0 (replicate (length nets) None) 0 of
        Inl addr \<Rightarrow>
          (Some (''whitelist.BasicNet: invalid IP network '' @ addr), wl\<lparr>whitelist := []\<rparr>)
      | Inr (ws, skipped) \<Rightarrow> (None, wl\<lparr>whitelist := take (length ws - skipped) ws\<rparr>))"

fun BasicNet_UnmarshalJSON :: "env \<Rightarrow> string \<Rightarrow> BasicNet \<Rightarrow> (error option \<times> BasicNet) outcome" where
  "BasicNet_UnmarshalJSON E inp wl =
     (if inp = [] then Inl IndexOutOfRange
      else
        let newFormat = (hd inp = CHR ''['' \<and> last inp = CHR '']'') in
        if \<not> newFormat \<and> (hd inp \<noteq> CHR 0x22 \<or> last inp \<noteq> CHR 0x22)
        then Inr (Some ''whitelist.BasicNet: invalid whitelist'', wl)
        else if \<not> newFormat then
          (if length inp < 2 then Inl SliceBoundsOutOfRange
           else
             let netString = TrimSpace (take (length inp - 2) (drop 1 inp)) in
             Inr (store_nets E (Split netString CHR '','') wl))
        else
          (case json_Unmarshal E inp of
             Inl e \<Rightarrow> Inr (Some (''whitelist.BasicNet: '' @ e), wl)
           | Inr nets \<Rightarrow> Inr (store_nets E nets wl)))"

section \<open>The dual whitelist\<close>

text \<open>
  \<open>BasicDual\<close> holds its two whitelists behind the interfaces \<open>HostACL\<close> and \<open>NetACL\<close>;
  \<open>Permitted\<close> calls nothing of them but their own \<open>Permitted\<close>, which is what the fields
  are here. Go's \<open>a || b\<close> evaluates \<open>b\<close> only when \<open>a\<close> is false.

  Under the asynchronous policy two goroutines send their results on one channel and the
  caller computes \<open><-res || <-res\<close>: it receives the results in the order in which they
  arrive, which the scheduler decides and the model takes as a parameter. A goroutine
  whose call panics sends nothing, and its panic ends the program: in the model the panic
  stands in the order of arrival where the result would have stood, so the caller meets it
  unless it has returned before. The outcome is what the call gives to its caller.
\<close>

definition LaunchPolicySequenced :: int where
  "LaunchPolicySequenced = 0"

definition LaunchPolicyAsync :: int where
  "LaunchPolicyAsync = 1"

record BasicDual =
  Addresses :: "IP \<Rightarrow> bool outcome"
  Networks :: "IP \<Rightarrow> bool outcome"
  launchPolicy :: int

datatype arrival = AddressesFirst | NetworksFirst

fun or_else :: "bool outcome \<Rightarrow> bool outcome \<Rightarrow> bool outcome" where
  "or_else (Inl p) b = Inl p"
| "or_else (Inr True) b = Inr True"
| "or_else (Inr False) b = b"

definition BasicDual_Permitted :: "BasicDual \<Rightarrow> arrival \<Rightarrow> IP \<Rightarrow> bool outcome" where
  "BasicDual_Permitted wl first ip =
     (if launchPolicy wl = LaunchPolicySequenced
      then or_else (Addresses wl ip) (Networks wl ip)
      else (case first of
              AddressesFirst \<Rightarrow> or_else (Addresses wl ip) (Networks wl ip)
            | NetworksFirst \<Rightarrow> or_else (Networks wl ip) (Addresses wl ip)))"

section \<open>Notions of the statements\<close>

text \<open>
  The slots that the loop of \<open>UnmarshalJSON\<close> reaches when no address fails to parse: nil
  for an address that is empty once trimmed, the parsed network for every other one.
\<close>

definition parsed_slots :: "env \<Rightarrow> string list \<Rightarrow> IPNet option list" where
  "parsed_slots E nets =
     map (\<lambda>s. if TrimSpace s = [] then None else net_ParseCIDR E (TrimSpace s)) nets"

definition empty_tokens :: "string list \<Rightarrow> nat" where
  "empty_tokens nets = length (filter (\<lambda>s. TrimSpace s = []) nets)"

text \<open>
  A byte is plain when it is ASCII and not white space. A network is canonical when its
  string is not empty, starts and ends with a plain byte, holds no comma, and parses to a
  network with the same string: what \<open>net.ParseCIDR\<close> returns for valid CIDR text is of
  this kind.
\<close>

definition plain :: "char \<Rightarrow> bool" where
  "plain c = ((of_char c :: nat) < 0x80 \<and> \<not> asciiSpace c)"

definition canonical :: "env \<Rightarrow> IPNet \<Rightarrow> bool" where
  "canonical E n =
     (let s = IPNet_String E (Some n) in
      s \<noteq> [] \<and> plain (hd s) \<and> plain (last s) \<and> CHR '','' \<notin> set s \<and>
      (case net_ParseCIDR E s of
         None \<Rightarrow> False
       | Some n' \<Rightarrow> IPNet_String E (Some n') = s))"

section \<open>An instance of the environment for IPv4\<close>

text \<open>
  The closed examples below run the model on an instance of \<open>env\<close> that follows Go's
  packages on IPv4: CIDR text in dotted decimal, networks and addresses of four bytes or of
  sixteen bytes in the IPv4-mapped form, and JSON arrays of string literals without escape
  sequences. Outside of this fragment the instance answers what Go answers on malformed
  input (a parse error, the string \<open><nil>\<close>, a decoding error). The theorems about the
  whitelist hold for every environment; the instance only serves to evaluate them.
\<close>

text \<open>
  Modelled from the spec: \<open>validIP\<close> of whitelist.go, which is not among the sources. The
  validator "rejects nil/zero-length or malformed byte representations", and a 2-byte value
  is not an IP: an address is valid when it has the four bytes of IPv4 or the sixteen of
  IPv6.
\<close>

definition validIP_spec :: "IP \<Rightarrow> bool" where
  "validIP_spec ip = (length ip = 4 \<or> length ip = 16)"

definition digit :: "char \<Rightarrow> nat option" where
  "digit c = (let k = of_char c :: nat in if 48 \<le> k \<and> k \<le> 57 then Some (k - 48) else None)"

fun dtoi :: "string \<Rightarrow> nat \<Rightarrow> nat option" where
  "dtoi [] acc = Some acc"
| "dtoi (c # s) acc = (case digit c of None \<Rightarrow> None | Some d \<Rightarrow> dtoi s (10 * acc + d))"

definition decimal :: "string \<Rightarrow> nat option" where
  "decimal s = (if s = [] then None else dtoi s 0)"

text \<open>A field of an IPv4 address: decimal, at most 255, without a leading zero.\<close>

definition parse_octet :: "string \<Rightarrow> byte option" where
  "parse_octet s =
     (case decimal s of
        None \<Rightarrow> None
      | Some v \<Rightarrow>
          if v \<le> 255 \<and> (length s = 1 \<or> hd s \<noteq> CHR ''0'') then Some (of_nat v) else None)"

definition parseIPv4 :: "string \<Rightarrow> IP option" where
  "parseIPv4 s =
     (let fields = Split s CHR ''.'' in
      if length fields = 4 then those (map parse_octet fields) else None)"

definition mask_byte :: "nat \<Rightarrow> byte" where
  "mask_byte n = NOT (drop_bit n (0xFF :: byte))"

text \<open>\<open>net.CIDRMask\<close>: \<open>n\<close> one bits, then zero bits, on \<open>l\<close> bytes.\<close>

fun CIDRMask :: "nat \<Rightarrow> nat \<Rightarrow> byte list" where
  "CIDRMask n 0 = []"
| "CIDRMask n (Suc l) =
     (if n \<ge> 8 then 0xFF # CIDRMask (n - 8) l else mask_byte n # CIDRMask 0 l)"

definition ParseCIDR4 :: "string \<Rightarrow> IPNet option" where
  "ParseCIDR4 s =
     (if CHR ''/'' \<notin> set s then None
      else
        let addr = takeWhile (\<lambda>c. c \<noteq> CHR ''/'') s;
            mask = tl (dropWhile (\<lambda>c. c \<noteq> CHR ''/'') s)
        in case parseIPv4 addr of
             None \<Rightarrow> None
           | Some ip \<Rightarrow>
               (case decimal mask of
                  None \<Rightarrow> None
                | Some n \<Rightarrow>
                    if n \<le> 32
                    then let m = CIDRMask n 4 in Some \<lparr>IP = map2 (AND) ip m, Mask = m\<rparr>
                    else None))"

definition To4 :: "IP \<Rightarrow> IP option" where
  "To4 ip =
     (if length ip = 4 then Some ip
      else if length ip = 16 \<and> take 10 ip = replicate 10 0 \<and> ip ! 10 = 0xFF \<and> ip ! 11 = 0xFF
      then Some (drop 12 ip)
      else None)"

definition networkNumberAndMask4 :: "IPNet \<Rightarrow> (IP \<times> byte list) option" where
  "networkNumberAndMask4 n =
     (case To4 (IP n) of
        None \<Rightarrow> None
      | Some ip \<Rightarrow>
          if length (Mask n) = 4 then Some (ip, Mask n)
          else if length (Mask n) = 16 then Some (ip, drop 12 (Mask n))
          else None)"

definition Contains4 :: "IPNet \<Rightarrow> IP \<Rightarrow> bool" where
  "Contains4 n ip =
     (let (nn, m) = (case networkNumberAndMask4 n of None \<Rightarrow> ([], []) | Some p \<Rightarrow> p);
          x = (case To4 ip of None \<Rightarrow> ip | Some y \<Rightarrow> y)
      in length x = length nn \<and>
         list_all (\<lambda>(a, b, k). a AND k = b AND k) (zip nn (zip x m)))"

fun uitoa :: "nat \<Rightarrow> string" where
  "uitoa n =
     (if n < 10 then [char_of (48 + n)] else uitoa (n div 10) @ [char_of (48 + n mod 10)])"

text \<open>The length of a mask of one bits followed by zero bits; \<open>None\<close> for any other mask.\<close>

fun simpleMaskLength :: "byte list \<Rightarrow> nat option" where
  "simpleMaskLength [] = Some 0"
| "simpleMaskLength (v # vs) =
     (if v = 0xFF then map_option (\<lambda>n. n + 8) (simpleMaskLength vs)
      else case find (\<lambda>k. mask_byte k = v) [0..<8] of
        None \<Rightarrow> None
      | Some k \<Rightarrow> if list_all (\<lambda>b. b = 0) vs then Some k else None)"

definition hex_byte :: "byte \<Rightarrow> string" where
  "hex_byte b =
     [''0123456789abcdef'' ! (unat b div 16), ''0123456789abcdef'' ! (unat b mod 16)]"

definition String4 :: "IPNet option \<Rightarrow> string" where
  "String4 p =
     (case p of
        None \<Rightarrow> ''<nil>''
      | Some n \<Rightarrow>
          (case networkNumberAndMask4 n of
             None \<Rightarrow> ''<nil>''
           | Some (nn, m) \<Rightarrow>
               Join (map (\<lambda>b. uitoa (unat b)) nn) ''.'' @ ''/'' @
                 (case simpleMaskLength m of
                    None \<Rightarrow> concat (map hex_byte m)
                  | Some l \<Rightarrow> uitoa l)))"

text \<open>
  The decoder reads a JSON array of string literals in one pass: white space around the
  brackets, the literals and the commas; in a literal, ASCII from the space on, but no
  backslash.
\<close>

datatype json_mode = BeforeArray | AfterOpen | InString | AfterString | AfterComma | AfterArray

definition json_space :: "char \<Rightarrow> bool" where
  "json_space c = (c = CHR 0x20 \<or> c = CHR 0x09 \<or> c = CHR 0x0A \<or> c = CHR 0x0D)"

definition json_plain :: "char \<Rightarrow> bool" where
  "json_plain c =
     ((0x20::nat) \<le> of_char c \<and> of_char c < (0x80::nat) \<and> c \<noteq> CHR 0x22 \<and> c \<noteq> CHR 0x5C)"

fun json_scan :: "json_mode \<Rightarrow> string \<Rightarrow> string list \<Rightarrow> string \<Rightarrow> string list option" where
  "json_scan m cur acc [] = (if m = AfterArray then Some (rev acc) else None)"
| "json_scan m cur acc (c # s) =
     (case m of
        BeforeArray \<Rightarrow>
          if json_space c then json_scan BeforeArray cur acc s
          else if c = CHR ''['' then json_scan AfterOpen cur acc s
          else None
      | AfterOpen \<Rightarrow>
          if json_space c then json_scan AfterOpen cur acc s
          else if c = CHR '']'' then json_scan AfterArray cur acc s
          else if c = CHR 0x22 then json_scan InString [] acc s
          else None
      | InString \<Rightarrow>
          if c = CHR 0x22 then json_scan AfterString [] (rev cur # acc) s
          else if json_plain c then json_scan InString (c # cur) acc s
          else None
      | AfterString \<Rightarrow>
          if json_space c then json_scan AfterString cur acc s
          else if c = CHR '','' then json_scan AfterComma cur acc s
          else if c = CHR '']'' then json_scan AfterArray cur acc s
          else None
      | AfterComma \<Rightarrow>
          if json_space c then json_scan AfterComma cur acc s
          else if c = CHR 0x22 then json_scan InString [] acc s
          else None
      | AfterArray \<Rightarrow>
          if json_space c then json_scan AfterArray cur acc s else None)"

definition json_strings :: "string \<Rightarrow> error + string list" where
  "json_strings inp =
     (case json_scan BeforeArray [] [] inp of
        None \<Rightarrow> Inl ''json: cannot unmarshal into Go value of type []string''
      | Some ss \<Rightarrow> Inr ss)"

definition ipv4_env :: env where
  "ipv4_env =
     \<lparr>validIP = validIP_spec, net_ParseCIDR = ParseCIDR4, IPNet_Contains = Contains4,
      IPNet_String = String4, json_Unmarshal = json_strings\<rparr>"

text \<open>
  The two networks of the package's tests, \<open>192.168.3.0/24\<close> and \<open>192.168.7.0/24\<close>, as
  \<open>net.ParseCIDR\<close> returns them.
\<close>

definition net_3 :: IPNet where
  "net_3 = \<lparr>IP = [192, 168, 3, 0], Mask = [255, 255, 255, 0]\<rparr>"

definition net_7 :: IPNet where
  "net_7 = \<lparr>IP = [192, 168, 7, 0], Mask = [255, 255, 255, 0]\<rparr>"

section \<open>Properties of the string functions\<close>

lemma plain_no_space:
  "plain a \<Longrightarrow>
     \<not> asciiSpace a \<and> \<not> isSpace2 a b \<and> \<not> isSpace3 a b c \<and> \<not> isSpace2 b a \<and> \<not> isSpace3 c b a"
  unfolding plain_def isSpace2_def isSpace3_def by auto

lemma TrimLeft_plain: "plain a \<Longrightarrow> TrimLeft (a # s) = a # s"
  using plain_no_space[of a] by (simp split: list.splits)

lemma TrimLeftRev_plain: "plain a \<Longrightarrow> TrimLeftRev (a # s) = a # s"
  using plain_no_space[of a] by (simp split: list.splits)

lemma TrimSpace_Nil: "TrimSpace [] = []"
  by (simp add: TrimSpace_def TrimRight_def)

lemma TrimSpace_plain:
  assumes "s \<noteq> []" and "plain (hd s)" and "plain (last s)"
  shows "TrimSpace s = s"
proof -
  from assms(1) obtain a t where s: "s = a # t" by (cases s) auto
  with assms(2) have "plain a" by simp
  then have l: "TrimLeft s = s" unfolding s by (rule TrimLeft_plain)
  from assms(1) obtain b u where r: "rev s = b # u" by (cases "rev s") auto
  then have "b = last s" using assms(1) by (metis hd_rev list.sel(1))
  with assms(3) have "plain b" by simp
  then have "TrimLeftRev (rev s) = rev s" unfolding r by (rule TrimLeftRev_plain)
  with l show ?thesis by (simp add: TrimSpace_def TrimRight_def)
qed

lemma Split_no_sep: "sep \<notin> set s \<Longrightarrow> Split s sep = [s]"
  by (induction s) auto

lemma Split_append_sep: "sep \<notin> set s \<Longrightarrow> Split (s @ sep # t) sep = s # Split t sep"
  by (induction s) auto

lemma Split_Join:
  "ss \<noteq> [] \<Longrightarrow> \<forall>s\<in>set ss. sep \<notin> set s \<Longrightarrow> Split (Join ss [sep]) sep = ss"
proof (induction ss)
  case Nil
  then show ?case by simp
next
  case (Cons s ss)
  show ?case
  proof (cases ss)
    case Nil
    with Cons.prems show ?thesis by (simp add: Split_no_sep)
  next
    case (Cons t ts)
    with Cons.prems Cons.IH have "Split (Join (t # ts) [sep]) sep = t # ts" by simp
    with Cons Cons.prems show ?thesis by (simp add: Split_append_sep)
  qed
qed

lemma Join_eq_Nil: "\<forall>s\<in>set ss. s \<noteq> [] \<Longrightarrow> Join ss sep = [] \<longleftrightarrow> ss = []"
  by (induction ss sep rule: Join.induct) auto

lemma hd_Join: "ss \<noteq> [] \<Longrightarrow> hd ss \<noteq> [] \<Longrightarrow> hd (Join ss sep) = hd (hd ss)"
  by (induction ss sep rule: Join.induct) auto

lemma last_Join:
  "ss \<noteq> [] \<Longrightarrow> \<forall>s\<in>set ss. s \<noteq> [] \<Longrightarrow> last (Join ss sep) = last (last ss)"
proof (induction ss sep rule: Join.induct)
  case (1 sep)
  then show ?case by simp
next
  case (2 s sep)
  then show ?case by simp
next
  case (3 s t ss sep)
  have "Join (t # ss) sep \<noteq> []" using "3.prems" Join_eq_Nil[of "t # ss" sep] by auto
  with 3 show ?case by simp
qed

section \<open>Properties of the loops\<close>

lemma remove_index_None:
  "remove_index E n es i = None \<longleftrightarrow> (\<forall>e\<in>set es. IPNet_String E e \<noteq> IPNet_String E n)"
  by (induction es arbitrary: i) auto

lemma remove_index_Some:
  "remove_index E n es i = Some k \<Longrightarrow>
     \<exists>pre e post. es = pre @ e # post \<and> k = i + length pre \<and>
        IPNet_String E e = IPNet_String E n \<and>
        (\<forall>x\<in>set pre. IPNet_String E x \<noteq> IPNet_String E n)"
proof (induction es arbitrary: i)
  case Nil
  then show ?case by simp
next
  case (Cons e es)
  show ?case
  proof (cases "IPNet_String E e = IPNet_String E n")
    case True
    with Cons.prems have "k = i" by simp
    with True show ?thesis by (intro exI[of _ "[]"] exI[of _ e] exI[of _ es]) simp
  next
    case False
    with Cons.prems have "remove_index E n es (Suc i) = Some k" by simp
    from Cons.IH[OF this] obtain pre x post where
      h: "es = pre @ x # post" "k = Suc i + length pre" "IPNet_String E x = IPNet_String E n"
         "\<forall>y\<in>set pre. IPNet_String E y \<noteq> IPNet_String E n" by blast
    with False show ?thesis
      by (intro exI[of _ "e # pre"] exI[of _ x] exI[of _ post]) simp
  qed
qed

lemma scan_whitelist_no_nil:
  "None \<notin> set ws \<Longrightarrow>
     scan_whitelist E ws ip = Inr (\<exists>n. Some n \<in> set ws \<and> IPNet_Contains E n ip)"
proof (induction ws)
  case Nil
  then show ?case by simp
next
  case (Cons e ws)
  then obtain n where e: "e = Some n" by (cases e) auto
  from Cons have "scan_whitelist E ws ip = Inr (\<exists>n. Some n \<in> set ws \<and> IPNet_Contains E n ip)"
    by simp
  with e show ?case by auto
qed

lemma scan_whitelist_first_match:
  "None \<notin> set pre \<Longrightarrow> IPNet_Contains E n ip \<Longrightarrow>
     scan_whitelist E (pre @ Some n # post) ip = Inr True"
proof (induction pre)
  case Nil
  then show ?case by simp
next
  case (Cons e pre)
  then obtain m where "e = Some m" by (cases e) auto
  with Cons show ?case by simp
qed

lemma fill_whitelist_error_iff:
  "(\<exists>addr. fill_whitelist E nets i ws sk = Inl addr) \<longleftrightarrow>
   (\<exists>s\<in>set nets. TrimSpace s \<noteq> [] \<and> net_ParseCIDR E (TrimSpace s) = None)"
  by (induction nets arbitrary: i ws sk) (auto simp: Let_def split: option.splits)

lemma fill_whitelist_error_addr:
  "fill_whitelist E nets i ws sk = Inl addr \<Longrightarrow>
     \<exists>s\<in>set nets. addr = TrimSpace s \<and> addr \<noteq> [] \<and> net_ParseCIDR E addr = None"
  by (induction nets arbitrary: i ws sk) (auto simp: Let_def split: option.splits if_splits)

lemma fill_whitelist_ok:
  "\<forall>s\<in>set nets. TrimSpace s = [] \<or> net_ParseCIDR E (TrimSpace s) \<noteq> None \<Longrightarrow>
   i + length nets \<le> length ws \<Longrightarrow>
   fill_whitelist E nets i ws sk =
     Inr (take i ws @
          map2 (\<lambda>s old. if TrimSpace s = [] then old else net_ParseCIDR E (TrimSpace s))
            nets (drop i ws) @
          drop (i + length nets) ws,
          sk + empty_tokens nets)"
proof (induction nets arbitrary: i ws sk)
  case Nil
  then show ?case by (simp add: empty_tokens_def)
next
  case (Cons s nets)
  from Cons.prems(2) have i: "i < length ws" by simp
  then have d: "drop i ws = ws ! i # drop (Suc i) ws" by (simp add: Cons_nth_drop_Suc)
  show ?case
  proof (cases "TrimSpace s = []")
    case True
    have "fill_whitelist E (s # nets) i ws sk = fill_whitelist E nets (Suc i) ws (Suc sk)"
      using True by simp
    also have "\<dots> =
        Inr (take (Suc i) ws @
             map2 (\<lambda>s old. if TrimSpace s = [] then old else net_ParseCIDR E (TrimSpace s))
               nets (drop (Suc i) ws) @
             drop (Suc i + length nets) ws,
             Suc sk + empty_tokens nets)"
      using Cons.prems by (intro Cons.IH) auto
    finally show ?thesis using True i d
      by (simp add: take_Suc_conv_app_nth empty_tokens_def)
  next
    case False
    with Cons.prems(1) obtain n where n: "net_ParseCIDR E (TrimSpace s) = Some n" by auto
    have "fill_whitelist E (s # nets) i ws sk =
            fill_whitelist E nets (Suc i) (ws[i := Some n]) sk"
      using False n by simp
    also have "\<dots> =
        Inr (take (Suc i) (ws[i := Some n]) @
             map2 (\<lambda>s old. if TrimSpace s = [] then old else net_ParseCIDR E (TrimSpace s))
               nets (drop (Suc i) (ws[i := Some n])) @
             drop (Suc i + length nets) (ws[i := Some n]),
             sk + empty_tokens nets)"
      using Cons.prems by (intro Cons.IH) auto
    finally show ?thesis using False i d n
      by (simp add: take_Suc_conv_app_nth empty_tokens_def)
  qed
qed

lemma map2_replicate_None:
  "map2 (\<lambda>s old. if P s then old else f s) nets (replicate (length nets) None)
     = map (\<lambda>s. if P s then None else f s) nets"
  by (induction nets) auto

lemma store_nets_ok:
  assumes "\<forall>s\<in>set nets. TrimSpace s = [] \<or> net_ParseCIDR E (TrimSpace s) \<noteq> None"
  shows "store_nets E nets wl =
     (None, wl\<lparr>whitelist := take (length nets - empty_tokens nets) (parsed_slots E nets)\<rparr>)"
proof -
  have "fill_whitelist E nets 0 (replicate (length nets) None) 0 =
          Inr (parsed_slots E nets, empty_tokens nets)"
    using fill_whitelist_ok[OF assms, of 0 "replicate (length nets) None" 0]
    by (simp add: parsed_slots_def map2_replicate_None)
  then show ?thesis by (simp add: store_nets_def parsed_slots_def)
qed

lemma store_nets_error:
  assumes "\<exists>s\<in>set nets. TrimSpace s \<noteq> [] \<and> net_ParseCIDR E (TrimSpace s) = None"
  shows "\<exists>addr. store_nets E nets wl =
     (Some (''whitelist.BasicNet: invalid IP network '' @ addr), wl\<lparr>whitelist := []\<rparr>) \<and>
     (\<exists>s\<in>set nets. addr = TrimSpace s \<and> addr \<noteq> [] \<and> net_ParseCIDR E addr = None)"
proof -
  from assms obtain addr where
    a: "fill_whitelist E nets 0 (replicate (length nets) None) 0 = Inl addr"
    using fill_whitelist_error_iff by blast
  from fill_whitelist_error_addr[OF a] a show ?thesis by (auto simp: store_nets_def)
qed

lemma canonical_strings:
  assumes "\<forall>n\<in>set ns. canonical E n"
  defines "ss \<equiv> map (IPNet_String E) (map Some ns)"
  shows "\<forall>s\<in>set ss. s \<noteq> [] \<and> plain (hd s) \<and> plain (last s) \<and> CHR '','' \<notin> set s \<and>
           TrimSpace s = s \<and> (\<exists>n'. net_ParseCIDR E s = Some n' \<and> IPNet_String E (Some n') = s)"
proof
  fix s assume "s \<in> set ss"
  then obtain n where n: "n \<in> set ns" "s = IPNet_String E (Some n)" by (auto simp: ss_def)
  with assms(1) have c: "canonical E n" by blast
  then have p: "s \<noteq> []" "plain (hd s)" "plain (last s)" "CHR '','' \<notin> set s"
    using n(2) by (simp_all add: canonical_def Let_def)
  from c n(2) have "\<exists>n'. net_ParseCIDR E s = Some n' \<and> IPNet_String E (Some n') = s"
    by (auto simp: canonical_def Let_def split: option.splits)
  with p TrimSpace_plain[OF p(1,2,3)]
  show "s \<noteq> [] \<and> plain (hd s) \<and> plain (last s) \<and> CHR '','' \<notin> set s \<and>
           TrimSpace s = s \<and> (\<exists>n'. net_ParseCIDR E s = Some n' \<and> IPNet_String E (Some n') = s)"
    by simp
qed

lemma store_canonical_strings:
  assumes "\<forall>n\<in>set ns. canonical E n"
  defines "ss \<equiv> map (IPNet_String E) (map Some ns)"
  shows "\<exists>ws. store_nets E ss wl = (None, wl\<lparr>whitelist := ws\<rparr>) \<and> map (IPNet_String E) ws = ss"
proof -
  have c: "\<forall>s\<in>set ss. s \<noteq> [] \<and> plain (hd s) \<and> plain (last s) \<and> CHR '','' \<notin> set s \<and>
           TrimSpace s = s \<and> (\<exists>n'. net_ParseCIDR E s = Some n' \<and> IPNet_String E (Some n') = s)"
    unfolding ss_def using assms(1) by (rule canonical_strings)
  then have ok: "\<forall>s\<in>set ss. TrimSpace s = [] \<or> net_ParseCIDR E (TrimSpace s) \<noteq> None" by auto
  from c have e: "empty_tokens ss = 0" by (auto simp: empty_tokens_def filter_empty_conv)
  have "map (IPNet_String E) (parsed_slots E ss) = ss"
    unfolding parsed_slots_def map_map by (rule map_idI) (use c in auto)
  moreover have "length (parsed_slots E ss) = length ss" by (simp add: parsed_slots_def)
  ultimately show ?thesis using store_nets_ok[OF ok, of wl] e
    by (intro exI[of _ "parsed_slots E ss"]) simp
qed

lemma store_one_empty: "store_nets E [[]] wl = (None, wl\<lparr>whitelist := []\<rparr>)"
  by (simp add: store_nets_def TrimSpace_Nil)

lemma unmarshal_quoted:
  "BasicNet_UnmarshalJSON E (''\"'' @ s @ ''\"'') wl =
     Inr (store_nets E (Split (TrimSpace s) CHR '','') wl)"
  by (simp add: Let_def)

lemma two_bytes:
  assumes "inp \<noteq> []" and "inp \<noteq> [c]" and "hd inp = c"
  shows "2 \<le> length inp"
proof (cases inp)
  case Nil
  with assms(1) show ?thesis by simp
next
  case (Cons a t)
  with assms(2,3) have "t \<noteq> []" by auto
  with Cons show ?thesis by (cases t) auto
qed

lemma middle_bytes: "take (length inp - 2) (drop (Suc 0) inp) = butlast (tl inp)"
proof -
  have "length inp - 2 = length (tl inp) - 1" by simp
  then show ?thesis by (simp only: butlast_conv_take drop_Suc drop_0)
qed

lemma Add_keeps_entries_non_nil:
  "None \<notin> set (whitelist wl) \<Longrightarrow> None \<notin> set (whitelist (BasicNet_Add n wl))"
  by (cases n) (simp_all add: BasicNet_Add_def)

lemma Remove_keeps_entries_non_nil:
  "None \<notin> set (whitelist wl) \<Longrightarrow> None \<notin> set (whitelist (BasicNet_Remove E n wl))"
  by (auto simp: BasicNet_Remove_def split: option.splits dest: in_set_takeD in_set_dropD)

section \<open>The claims\<close>

subsection \<open>C1: the entries after a failed UnmarshalJSON\<close>

text \<open>
  C1 says that whenever \<open>UnmarshalJSON\<close> returns an error the whitelist is empty afterwards,
  whatever it held. The code empties the whitelist where a CIDR token fails to parse
  (\<open>store_nets_error\<close>), but returns before it touches the whitelist where the input has
  neither shape: on the input \<open>192.168.3.1/24,127.0.0.1/32\<close> of the package's test, a
  whitelist that holds \<open>192.168.3.0/24\<close> returns the error and still holds its entry.
\<close>

theorem UnmarshalJSON_shape_error_keeps_entries:
  "BasicNet_UnmarshalJSON ipv4_env ''192.168.3.1/24,127.0.0.1/32''
     \<lparr>jsonFormat = JsonFormatCompatibility, whitelist = [Some net_3]\<rparr> =
   Inr (Some ''whitelist.BasicNet: invalid whitelist'',
        \<lparr>jsonFormat = JsonFormatCompatibility, whitelist = [Some net_3]\<rparr>)"
  by code_simp

subsection \<open>C2: empty tokens of the compatibility format\<close>

text \<open>
  C2 says that the compatibility format skips empty tokens and keeps the parsed ones, in
  their order. The code counts the empty tokens, leaves their slots nil and cuts as many
  slots off the end of the slice: on \<open>"192.168.3.0/24,,192.168.7.0/24"\<close> it succeeds with
  the two entries \<open>192.168.3.0/24\<close> and nil, and \<open>192.168.7.0/24\<close> is lost.
\<close>

theorem UnmarshalJSON_empty_token_loses_network:
  "BasicNet_UnmarshalJSON ipv4_env ''\"192.168.3.0/24,,192.168.7.0/24\"'' NewBasicNet =
   Inr (None, \<lparr>jsonFormat = JsonFormatCompatibility, whitelist = [Some net_3, None]\<rparr>)"
  by code_simp

subsection \<open>C3: the two launch policies\<close>

text \<open>
  When the two whitelists answer the address (neither call panics), \<open>Permitted\<close> returns
  under the asynchronous policy, in whichever order the two results arrive, what it returns
  under the sequenced policy: the disjunction of the two answers.
\<close>

lemma Dual_policies_agree:
  assumes "Addresses wl ip = Inr a" and "Networks wl ip = Inr n"
  shows "BasicDual_Permitted (wl\<lparr>launchPolicy := LaunchPolicyAsync\<rparr>) first ip =
           BasicDual_Permitted (wl\<lparr>launchPolicy := LaunchPolicySequenced\<rparr>) first' ip \<and>
         BasicDual_Permitted (wl\<lparr>launchPolicy := LaunchPolicySequenced\<rparr>) first' ip =
           Inr (a \<or> n)"
  using assms
  by (cases a; cases n; cases first)
     (simp_all add: BasicDual_Permitted_def LaunchPolicySequenced_def LaunchPolicyAsync_def)

text \<open>
  So it is at a network whitelist that holds \<open>192.168.3.0/24\<close>, an address whitelist
  that permits nothing, and the address \<open>192.168.3.1\<close>.
\<close>

lemma Dual_policies_agree_example:
  "BasicNet_Permitted ipv4_env \<lparr>jsonFormat = JsonFormatCompatibility, whitelist = [Some net_3]\<rparr>
     [192, 168, 3, 1] = Inr True \<and>
   BasicDual_Permitted
     \<lparr>Addresses = (\<lambda>ip. Inr False),
      Networks = BasicNet_Permitted ipv4_env
        \<lparr>jsonFormat = JsonFormatCompatibility, whitelist = [Some net_3]\<rparr>,
      launchPolicy = LaunchPolicySequenced\<rparr> AddressesFirst [192, 168, 3, 1] = Inr True \<and>
   BasicDual_Permitted
     \<lparr>Addresses = (\<lambda>ip. Inr False),
      Networks = BasicNet_Permitted ipv4_env
        \<lparr>jsonFormat = JsonFormatCompatibility, whitelist = [Some net_3]\<rparr>,
      launchPolicy = LaunchPolicyAsync\<rparr> NetworksFirst [192, 168, 3, 1] = Inr True"
proof -
  let ?N = "BasicNet_Permitted ipv4_env \<lparr>jsonFormat = JsonFormatCompatibility, whitelist = [Some net_3]\<rparr>"
  let ?wl = "\<lparr>Addresses = (\<lambda>ip. Inr False), Networks = ?N, launchPolicy = 7\<rparr>"
  have n: "?N [192, 168, 3, 1] = Inr True" by code_simp
  have a: "Addresses ?wl [192, 168, 3, 1] = Inr False" by simp
  from n have n': "Networks ?wl [192, 168, 3, 1] = Inr True" by simp
  from Dual_policies_agree[OF a n', of NetworksFirst AddressesFirst] n show ?thesis by simp
qed

text \<open>
  C3 says that \<open>Permitted\<close> returns the same boolean under both policies, for every pair
  of whitelists and every address. The code does not where the network whitelist holds a
  nil entry, as it does after decoding \<open>",192.168.3.0/24"\<close>, and the address whitelist
  permits the address: the sequenced policy returns true without asking the network
  whitelist, and under the asynchronous policy the goroutine that asks it panics.
\<close>

theorem Dual_policies_differ_on_nil_entry:
  "BasicDual_Permitted
     \<lparr>Addresses = (\<lambda>ip. Inr True),
      Networks = BasicNet_Permitted ipv4_env
        \<lparr>jsonFormat = JsonFormatCompatibility, whitelist = [None]\<rparr>,
      launchPolicy = LaunchPolicySequenced\<rparr> NetworksFirst [192, 168, 3, 1] = Inr True \<and>
   BasicDual_Permitted
     \<lparr>Addresses = (\<lambda>ip. Inr True),
      Networks = BasicNet_Permitted ipv4_env
        \<lparr>jsonFormat = JsonFormatCompatibility, whitelist = [None]\<rparr>,
      launchPolicy = LaunchPolicyAsync\<rparr> NetworksFirst [192, 168, 3, 1] = Inl NilDereference"
  by code_simp

subsection \<open>C4: Permitted of the network whitelist\<close>

text \<open>
  \<open>Permitted\<close> returns false for an address that \<open>validIP\<close> rejects, whatever the
  whitelist holds; for a valid address and a whitelist without nil entries it returns
  whether some entry contains the address; and it returns true at the first entry that
  contains the address when no nil entry stands before it, whatever follows.
\<close>

lemma Permitted_scan:
  "(\<not> validIP E ip \<longrightarrow> BasicNet_Permitted E wl ip = Inr False) \<and>
   (validIP E ip \<and> None \<notin> set (whitelist wl) \<longrightarrow>
      BasicNet_Permitted E wl ip =
        Inr (\<exists>n. Some n \<in> set (whitelist wl) \<and> IPNet_Contains E n ip)) \<and>
   (validIP E ip \<and> whitelist wl = pre @ Some n # post \<and> None \<notin> set pre \<and>
      IPNet_Contains E n ip \<longrightarrow> BasicNet_Permitted E wl ip = Inr True)"
  by (simp add: BasicNet_Permitted_def scan_whitelist_no_nil scan_whitelist_first_match)

text \<open>
  So it is on the whitelist of the package's tests: the 2-byte value is refused,
  \<open>192.168.3.1\<close> is permitted and \<open>192.168.4.1\<close> is not; a nil entry after the match is
  never reached.
\<close>

lemma Permitted_scan_example:
  "\<not> validIP ipv4_env [0, 0] \<and>
   BasicNet_Permitted ipv4_env \<lparr>jsonFormat = JsonFormatCompatibility, whitelist = [Some net_3]\<rparr>
     [0, 0] = Inr False \<and>
   validIP ipv4_env [192, 168, 3, 1] \<and>
   BasicNet_Permitted ipv4_env \<lparr>jsonFormat = JsonFormatCompatibility, whitelist = [Some net_3]\<rparr>
     [192, 168, 3, 1] = Inr True \<and>
   validIP ipv4_env [192, 168, 4, 1] \<and>
   BasicNet_Permitted ipv4_env \<lparr>jsonFormat = JsonFormatCompatibility, whitelist = [Some net_3]\<rparr>
     [192, 168, 4, 1] = Inr False \<and>
   BasicNet_Permitted ipv4_env
     \<lparr>jsonFormat = JsonFormatCompatibility, whitelist = [Some net_7, Some net_3, None]\<rparr>
     [192, 168, 3, 1] = Inr True"
proof -
  let ?wl = "\<lparr>jsonFormat = JsonFormatCompatibility, whitelist = [Some net_3]\<rparr>"
  let ?wl2 = "\<lparr>jsonFormat = JsonFormatCompatibility, whitelist = [Some net_7, Some net_3, None]\<rparr>"
  have v: "\<not> validIP ipv4_env [0, 0]" "validIP ipv4_env [192, 168, 3, 1]"
    "validIP ipv4_env [192, 168, 4, 1]"
    by code_simp+
  have c: "IPNet_Contains ipv4_env net_3 [192, 168, 3, 1]"
    "\<not> IPNet_Contains ipv4_env net_3 [192, 168, 4, 1]"
    by code_simp+
  have n: "None \<notin> set (whitelist ?wl)" by simp
  have 1: "BasicNet_Permitted ipv4_env ?wl [0, 0] = Inr False"
    using Permitted_scan[of ipv4_env "[0, 0]" ?wl] v(1) by blast
  have 2: "BasicNet_Permitted ipv4_env ?wl [192, 168, 3, 1] = Inr True"
    using Permitted_scan[of ipv4_env "[192, 168, 3, 1]" ?wl] v(2) n c(1) by simp
  have 3: "BasicNet_Permitted ipv4_env ?wl [192, 168, 4, 1] = Inr False"
    using Permitted_scan[of ipv4_env "[192, 168, 4, 1]" ?wl] v(3) n c(2) by simp
  have 4: "BasicNet_Permitted ipv4_env ?wl2 [192, 168, 3, 1] = Inr True"
    using Permitted_scan[of ipv4_env "[192, 168, 3, 1]" ?wl2 "[Some net_7]" net_3 "[None]"]
      v(2) c(1) by simp
  from v 1 2 3 4 show ?thesis by simp
qed

text \<open>
  C4 says that for a valid address \<open>Permitted\<close> returns whether some entry of the whitelist
  contains it, on every whitelist. The code does not on a whitelist with a nil entry:
  decoding \<open>"192.168.7.0/24,,192.168.3.0/24,10.0.0.0/8"\<close> succeeds and leaves the entries
  \<open>192.168.7.0/24\<close>, nil and \<open>192.168.3.0/24\<close>; the address \<open>192.168.3.1\<close> is valid and
  the last entry contains it, but the scan reaches the nil entry first and panics.
\<close>

theorem Permitted_panics_on_nil_entry:
  "BasicNet_UnmarshalJSON ipv4_env ''\"192.168.7.0/24,,192.168.3.0/24,10.0.0.0/8\"'' NewBasicNet =
     Inr (None, \<lparr>jsonFormat = JsonFormatCompatibility,
                  whitelist = [Some net_7, None, Some net_3]\<rparr>) \<and>
   validIP ipv4_env [192, 168, 3, 1] \<and> IPNet_Contains ipv4_env net_3 [192, 168, 3, 1] \<and>
   BasicNet_Permitted ipv4_env
     \<lparr>jsonFormat = JsonFormatCompatibility, whitelist = [Some net_7, None, Some net_3]\<rparr>
     [192, 168, 3, 1] = Inl NilDereference"
  by code_simp

subsection \<open>C5: MarshalJSON, then UnmarshalJSON\<close>

text \<open>
  C5: for a whitelist of canonical networks, in the compatibility format or in the new
  format (where \<open>json.Unmarshal\<close> decodes the array that \<open>MarshalJSON\<close> wrote to the strings
  it was written from), \<open>MarshalJSON\<close> succeeds, \<open>UnmarshalJSON\<close> of its output succeeds on
  any whitelist, and the entries it stores have the strings of the original entries, in
  the same order. The list of networks may be empty.
\<close>

theorem Marshal_Unmarshal_round_trip:
  assumes "\<forall>n\<in>set ns. canonical E n"
    and "whitelist wl = map Some ns"
    and "jsonFormat wl = JsonFormatCompatibility \<or>
         jsonFormat wl = JsonFormatNew \<and>
         (\<exists>out. BasicNet_MarshalJSON E wl = Inr out \<and>
                json_Unmarshal E out = Inr (map (IPNet_String E) (whitelist wl)))"
  shows "\<exists>out wl''. BasicNet_MarshalJSON E wl = Inr out \<and>
           BasicNet_UnmarshalJSON E out wl' = Inr (None, wl'') \<and>
           jsonFormat wl'' = jsonFormat wl' \<and>
           map (IPNet_String E) (whitelist wl'') = map (IPNet_String E) (whitelist wl) \<and>
           set (map (IPNet_String E) (whitelist wl'')) = set (map (IPNet_String E) (whitelist wl))"
proof -
  define ss where "ss = map (IPNet_String E) (map Some ns)"
  have c: "\<forall>s\<in>set ss. s \<noteq> [] \<and> plain (hd s) \<and> plain (last s) \<and> CHR '','' \<notin> set s \<and>
           TrimSpace s = s \<and> (\<exists>n'. net_ParseCIDR E s = Some n' \<and> IPNet_String E (Some n') = s)"
    unfolding ss_def using assms(1) by (rule canonical_strings)
  obtain ws where ws: "store_nets E ss wl' = (None, wl'\<lparr>whitelist := ws\<rparr>)"
      "map (IPNet_String E) ws = ss"
    using store_canonical_strings[OF assms(1), of wl'] unfolding ss_def by blast
  have w: "map (IPNet_String E) (whitelist wl) = ss" by (simp add: ss_def assms(2))
  from assms(3) show ?thesis
  proof
    assume f: "jsonFormat wl = JsonFormatCompatibility"
    then have m: "BasicNet_MarshalJSON E wl = Inr (''\"'' @ Join ss '','' @ ''\"'')"
      by (simp add: BasicNet_MarshalJSON_def w)
    have u: "\<exists>ws'. store_nets E (Split (TrimSpace (Join ss '','')) CHR '','') wl' =
                (None, wl'\<lparr>whitelist := ws'\<rparr>) \<and>
              map (IPNet_String E) ws' = ss"
    proof (cases "ss = []")
      case True
      then show ?thesis by (simp add: TrimSpace_Nil store_one_empty)
    next
      case False
      from c have ne: "\<forall>s\<in>set ss. s \<noteq> []" by blast
      from False c have h: "hd ss \<noteq> []" "plain (hd (hd ss))" "plain (last (last ss))"
        by (simp_all add: hd_in_set)
      have j: "Join ss '','' \<noteq> []" using False Join_eq_Nil[OF ne] by simp
      have "TrimSpace (Join ss '','') = Join ss '',''"
        using j h False ne by (intro TrimSpace_plain) (simp_all add: hd_Join last_Join)
      moreover have "Split (Join ss '','') CHR '','' = ss"
        using False c by (intro Split_Join) auto
      ultimately show ?thesis using ws by (intro exI[of _ ws]) simp
    qed
    then obtain ws' where
      ws': "store_nets E (Split (TrimSpace (Join ss '','')) CHR '','') wl' =
              (None, wl'\<lparr>whitelist := ws'\<rparr>)"
           "map (IPNet_String E) ws' = ss" by blast
    have "BasicNet_UnmarshalJSON E (''\"'' @ Join ss '','' @ ''\"'') wl' =
            Inr (None, wl'\<lparr>whitelist := ws'\<rparr>)"
      using ws'(1) by (simp only: unmarshal_quoted)
    with m ws'(2) w show ?thesis
      by (intro exI[of _ "''\"'' @ Join ss '','' @ ''\"''"] exI[of _ "wl'\<lparr>whitelist := ws'\<rparr>"])
         simp
  next
    assume "jsonFormat wl = JsonFormatNew \<and>
         (\<exists>out. BasicNet_MarshalJSON E wl = Inr out \<and>
                json_Unmarshal E out = Inr (map (IPNet_String E) (whitelist wl)))"
    then obtain out where f: "jsonFormat wl = JsonFormatNew"
      and m: "BasicNet_MarshalJSON E wl = Inr out"
      and j: "json_Unmarshal E out = Inr ss" using w by auto
    from m f have "out = ''[\"'' @ Join ss ''\",\"'' @ ''\"]'' \<or> out = ''[]''"
      by (auto simp: BasicNet_MarshalJSON_def w split: if_splits)
    then have "out \<noteq> [] \<and> hd out = CHR ''['' \<and> last out = CHR '']''" by auto
    then have "BasicNet_UnmarshalJSON E out wl' = Inr (store_nets E ss wl')"
      using j by (simp add: Let_def)
    with m ws w show ?thesis by (intro exI[of _ out] exI[of _ "wl'\<lparr>whitelist := ws\<rparr>"]) simp
  qed
qed

text \<open>
  The theorem on the two networks of the package's tests, in both formats, and on the
  empty whitelist.
\<close>

theorem Marshal_Unmarshal_round_trip_witness:
  "canonical ipv4_env net_3 \<and> canonical ipv4_env net_7 \<and>
   map (IPNet_String ipv4_env) [Some net_3, Some net_7] =
     [''192.168.3.0/24'', ''192.168.7.0/24''] \<and>
   BasicNet_MarshalJSON ipv4_env
     \<lparr>jsonFormat = JsonFormatNew, whitelist = [Some net_3, Some net_7]\<rparr> =
     Inr ''[\"192.168.3.0/24\",\"192.168.7.0/24\"]'' \<and>
   json_Unmarshal ipv4_env ''[\"192.168.3.0/24\",\"192.168.7.0/24\"]'' =
     Inr [''192.168.3.0/24'', ''192.168.7.0/24''] \<and>
   (\<exists>out wl''.
      BasicNet_MarshalJSON ipv4_env
        \<lparr>jsonFormat = JsonFormatNew, whitelist = [Some net_3, Some net_7]\<rparr> = Inr out \<and>
      BasicNet_UnmarshalJSON ipv4_env out NewBasicNet = Inr (None, wl'') \<and>
      jsonFormat wl'' = jsonFormat NewBasicNet \<and>
      map (IPNet_String ipv4_env) (whitelist wl'') =
        map (IPNet_String ipv4_env)
          (whitelist \<lparr>jsonFormat = JsonFormatNew, whitelist = [Some net_3, Some net_7]\<rparr>) \<and>
      set (map (IPNet_String ipv4_env) (whitelist wl'')) =
        set (map (IPNet_String ipv4_env)
          (whitelist \<lparr>jsonFormat = JsonFormatNew, whitelist = [Some net_3, Some net_7]\<rparr>))) \<and>
   (\<exists>out wl''.
      BasicNet_MarshalJSON ipv4_env
        \<lparr>jsonFormat = JsonFormatCompatibility, whitelist = [Some net_3, Some net_7]\<rparr> = Inr out \<and>
      BasicNet_UnmarshalJSON ipv4_env out NewBasicNet = Inr (None, wl'') \<and>
      jsonFormat wl'' = jsonFormat NewBasicNet \<and>
      map (IPNet_String ipv4_env) (whitelist wl'') =
        map (IPNet_String ipv4_env)
          (whitelist \<lparr>jsonFormat = JsonFormatCompatibility,
                      whitelist = [Some net_3, Some net_7]\<rparr>) \<and>
      set (map (IPNet_String ipv4_env) (whitelist wl'')) =
        set (map (IPNet_String ipv4_env)
          (whitelist \<lparr>jsonFormat = JsonFormatCompatibility,
                      whitelist = [Some net_3, Some net_7]\<rparr>))) \<and>
   BasicNet_MarshalJSON ipv4_env \<lparr>jsonFormat = JsonFormatNew, whitelist = []\<rparr> = Inr ''[]'' \<and>
   json_Unmarshal ipv4_env ''[]'' = Inr [] \<and>
   (\<exists>out wl''.
      BasicNet_MarshalJSON ipv4_env \<lparr>jsonFormat = JsonFormatNew, whitelist = []\<rparr> = Inr out \<and>
      BasicNet_UnmarshalJSON ipv4_env out NewBasicNet = Inr (None, wl'') \<and>
      jsonFormat wl'' = jsonFormat NewBasicNet \<and>
      map (IPNet_String ipv4_env) (whitelist wl'') =
        map (IPNet_String ipv4_env)
          (whitelist \<lparr>jsonFormat = JsonFormatNew, whitelist = []\<rparr>) \<and>
      set (map (IPNet_String ipv4_env) (whitelist wl'')) =
        set (map (IPNet_String ipv4_env)
          (whitelist \<lparr>jsonFormat = JsonFormatNew, whitelist = []\<rparr>)))"
proof -
  let ?new = "\<lparr>jsonFormat = JsonFormatNew, whitelist = [Some net_3, Some net_7]\<rparr>"
  let ?old = "\<lparr>jsonFormat = JsonFormatCompatibility, whitelist = [Some net_3, Some net_7]\<rparr>"
  have c: "canonical ipv4_env net_3" "canonical ipv4_env net_7"
    by code_simp+
  then have cs: "\<forall>n\<in>set [net_3, net_7]. canonical ipv4_env n" by simp
  have s: "map (IPNet_String ipv4_env) [Some net_3, Some net_7] =
             [''192.168.3.0/24'', ''192.168.7.0/24'']"
    by code_simp
  have m: "BasicNet_MarshalJSON ipv4_env ?new = Inr ''[\"192.168.3.0/24\",\"192.168.7.0/24\"]''"
    by code_simp
  have j: "json_Unmarshal ipv4_env ''[\"192.168.3.0/24\",\"192.168.7.0/24\"]'' =
             Inr [''192.168.3.0/24'', ''192.168.7.0/24'']"
    by code_simp
  have w: "whitelist ?new = map Some [net_3, net_7]" "whitelist ?old = map Some [net_3, net_7]"
    by simp_all
  have "json_Unmarshal ipv4_env ''[\"192.168.3.0/24\",\"192.168.7.0/24\"]'' =
          Inr (map (IPNet_String ipv4_env) (whitelist ?new))"
    using j s by simp
  with m have f1: "jsonFormat ?new = JsonFormatCompatibility \<or>
         jsonFormat ?new = JsonFormatNew \<and>
         (\<exists>out. BasicNet_MarshalJSON ipv4_env ?new = Inr out \<and>
                json_Unmarshal ipv4_env out = Inr (map (IPNet_String ipv4_env) (whitelist ?new)))"
    by (intro disjI2 conjI exI[of _ "''[\"192.168.3.0/24\",\"192.168.7.0/24\"]''"]) simp_all
  have f2: "jsonFormat ?old = JsonFormatCompatibility \<or>
         jsonFormat ?old = JsonFormatNew \<and>
         (\<exists>out. BasicNet_MarshalJSON ipv4_env ?old = Inr out \<and>
                json_Unmarshal ipv4_env out = Inr (map (IPNet_String ipv4_env) (whitelist ?old)))"
    by (intro disjI1) simp
  let ?none = "\<lparr>jsonFormat = JsonFormatNew, whitelist = []\<rparr>"
  have m0: "BasicNet_MarshalJSON ipv4_env ?none = Inr ''[]''"
    by code_simp
  have j0: "json_Unmarshal ipv4_env ''[]'' = Inr []"
    by code_simp
  have c0: "\<forall>n\<in>set ([] :: IPNet list). canonical ipv4_env n" by simp
  have w0: "whitelist ?none = map Some []" by simp
  from m0 j0 have f0: "jsonFormat ?none = JsonFormatCompatibility \<or>
         jsonFormat ?none = JsonFormatNew \<and>
         (\<exists>out. BasicNet_MarshalJSON ipv4_env ?none = Inr out \<and>
                json_Unmarshal ipv4_env out = Inr (map (IPNet_String ipv4_env) (whitelist ?none)))"
    by (intro disjI2 conjI exI[of _ "''[]''"]) simp_all
  note 0 = Marshal_Unmarshal_round_trip[OF c0 w0 f0, of NewBasicNet]
  note 1 = Marshal_Unmarshal_round_trip[OF cs w(1) f1, of NewBasicNet]
  note 2 = Marshal_Unmarshal_round_trip[OF cs w(2) f2, of NewBasicNet]
  from c s m j 1 2 m0 j0 0 show ?thesis by (intro conjI)
qed

subsection \<open>C6: how UnmarshalJSON tells the formats apart\<close>

text \<open>
  C6, amended: on an input that is neither empty nor the single byte \<open>"\<close>,
  \<open>UnmarshalJSON\<close> looks at the first and the last byte of the input as they are: it
  decodes the new format when they are \<open>[\<close> and \<open>]\<close>, the compatibility format when both
  are \<open>"\<close>, and returns the error \<open>whitelist.BasicNet: invalid whitelist\<close> when the
  input has neither shape. White space is not skipped: an input that starts or ends with
  white space gets that error.
\<close>

theorem UnmarshalJSON_shape:
  assumes "inp \<noteq> []" and "inp \<noteq> ''\"''"
  shows "(hd inp = CHR ''['' \<and> last inp = CHR '']'' \<longrightarrow>
            (case json_Unmarshal E inp of
               Inl e \<Rightarrow>
                 \<exists>wl'. BasicNet_UnmarshalJSON E inp wl =
                         Inr (Some (''whitelist.BasicNet: '' @ e), wl')
             | Inr nets \<Rightarrow> BasicNet_UnmarshalJSON E inp wl = Inr (store_nets E nets wl))) \<and>
         (hd inp = CHR 0x22 \<and> last inp = CHR 0x22 \<longrightarrow>
            BasicNet_UnmarshalJSON E inp wl =
              Inr (store_nets E (Split (TrimSpace (butlast (tl inp))) CHR '','') wl)) \<and>
         (\<not> (hd inp = CHR ''['' \<and> last inp = CHR '']'') \<and>
          \<not> (hd inp = CHR 0x22 \<and> last inp = CHR 0x22) \<longrightarrow>
            (\<exists>wl'. BasicNet_UnmarshalJSON E inp wl =
                     Inr (Some ''whitelist.BasicNet: invalid whitelist'', wl'))) \<and>
         (asciiSpace (hd inp) \<or> asciiSpace (last inp) \<longrightarrow>
            (\<exists>wl'. BasicNet_UnmarshalJSON E inp wl =
                     Inr (Some ''whitelist.BasicNet: invalid whitelist'', wl')))"
proof -
  have shape: "BasicNet_UnmarshalJSON E inp wl =
     (if hd inp = CHR ''['' \<and> last inp = CHR '']'' then
        (case json_Unmarshal E inp of
           Inl e \<Rightarrow> Inr (Some (''whitelist.BasicNet: '' @ e), wl)
         | Inr nets \<Rightarrow> Inr (store_nets E nets wl))
      else if hd inp = CHR 0x22 \<and> last inp = CHR 0x22 then
        Inr (store_nets E (Split (TrimSpace (butlast (tl inp))) CHR '','') wl)
      else Inr (Some ''whitelist.BasicNet: invalid whitelist'', wl))"
  proof (cases "hd inp = CHR 0x22 \<and> last inp = CHR 0x22")
    case True
    with assms have "2 \<le> length inp" by (intro two_bytes[of inp "CHR 0x22"]) auto
    with True assms(1) show ?thesis by (simp add: middle_bytes Let_def)
  next
    case False
    with assms(1) show ?thesis by (auto simp: Let_def)
  qed
  have "asciiSpace c \<Longrightarrow> c \<noteq> CHR ''['' \<and> c \<noteq> CHR '']'' \<and> c \<noteq> CHR 0x22" for c
    by (auto simp: asciiSpace_def)
  then have space: "asciiSpace (hd inp) \<or> asciiSpace (last inp) \<Longrightarrow>
      \<not> (hd inp = CHR ''['' \<and> last inp = CHR '']'') \<and>
      \<not> (hd inp = CHR 0x22 \<and> last inp = CHR 0x22)"
    by blast
  show ?thesis
  proof (intro conjI impI)
    assume "hd inp = CHR ''['' \<and> last inp = CHR '']''"
    with shape show "case json_Unmarshal E inp of
         Inl e \<Rightarrow>
           \<exists>wl'. BasicNet_UnmarshalJSON E inp wl =
                   Inr (Some (''whitelist.BasicNet: '' @ e), wl')
       | Inr nets \<Rightarrow> BasicNet_UnmarshalJSON E inp wl = Inr (store_nets E nets wl)"
      by (cases "json_Unmarshal E inp") simp_all
  next
    assume "hd inp = CHR 0x22 \<and> last inp = CHR 0x22"
    with shape show "BasicNet_UnmarshalJSON E inp wl =
        Inr (store_nets E (Split (TrimSpace (butlast (tl inp))) CHR '','') wl)"
      by simp
  next
    assume "\<not> (hd inp = CHR ''['' \<and> last inp = CHR '']'') \<and>
            \<not> (hd inp = CHR 0x22 \<and> last inp = CHR 0x22)"
    with shape have "BasicNet_UnmarshalJSON E inp wl =
        Inr (Some ''whitelist.BasicNet: invalid whitelist'', wl)"
      by presburger
    then show "\<exists>wl'. BasicNet_UnmarshalJSON E inp wl =
        Inr (Some ''whitelist.BasicNet: invalid whitelist'', wl')"
      by (rule exI[of _ wl])
  next
    assume "asciiSpace (hd inp) \<or> asciiSpace (last inp)"
    with shape space have "BasicNet_UnmarshalJSON E inp wl =
        Inr (Some ''whitelist.BasicNet: invalid whitelist'', wl)"
      by presburger
    then show "\<exists>wl'. BasicNet_UnmarshalJSON E inp wl =
        Inr (Some ''whitelist.BasicNet: invalid whitelist'', wl')"
      by (rule exI[of _ wl])
  qed
qed

text \<open>The theorem on an input of each shape, and on an input that ends with a space.\<close>

theorem UnmarshalJSON_shape_witness:
  "''\"192.168.3.0/24, 192.168.7.0/24\"'' \<noteq> [] \<and>
   ''\"192.168.3.0/24, 192.168.7.0/24\"'' \<noteq> ''\"'' \<and>
   BasicNet_UnmarshalJSON ipv4_env ''\"192.168.3.0/24, 192.168.7.0/24\"'' NewBasicNet =
     Inr (store_nets ipv4_env [''192.168.3.0/24'', '' 192.168.7.0/24''] NewBasicNet) \<and>
   json_Unmarshal ipv4_env ''[\"192.168.3.0/24\"]'' = Inr [''192.168.3.0/24''] \<and>
   BasicNet_UnmarshalJSON ipv4_env ''[\"192.168.3.0/24\"]'' NewBasicNet =
     Inr (store_nets ipv4_env [''192.168.3.0/24''] NewBasicNet) \<and>
   (\<exists>wl'. BasicNet_UnmarshalJSON ipv4_env ''192.168.3.1/24,127.0.0.1/32'' NewBasicNet =
      Inr (Some ''whitelist.BasicNet: invalid whitelist'', wl')) \<and>
   asciiSpace (last ''\"192.168.3.0/24\" '') \<and>
   (\<exists>wl'. BasicNet_UnmarshalJSON ipv4_env ''\"192.168.3.0/24\" '' NewBasicNet =
      Inr (Some ''whitelist.BasicNet: invalid whitelist'', wl'))"
proof -
  have s: "Split (TrimSpace (butlast (tl ''\"192.168.3.0/24, 192.168.7.0/24\"''))) CHR '','' =
             [''192.168.3.0/24'', '' 192.168.7.0/24'']"
    by code_simp
  have j: "json_Unmarshal ipv4_env ''[\"192.168.3.0/24\"]'' = Inr [''192.168.3.0/24'']"
    by code_simp
  have 1: "BasicNet_UnmarshalJSON ipv4_env ''\"192.168.3.0/24, 192.168.7.0/24\"'' NewBasicNet =
     Inr (store_nets ipv4_env [''192.168.3.0/24'', '' 192.168.7.0/24''] NewBasicNet)"
    using UnmarshalJSON_shape[of "''\"192.168.3.0/24, 192.168.7.0/24\"''" ipv4_env NewBasicNet] s
    by simp
  have 2: "BasicNet_UnmarshalJSON ipv4_env ''[\"192.168.3.0/24\"]'' NewBasicNet =
     Inr (store_nets ipv4_env [''192.168.3.0/24''] NewBasicNet)"
    using UnmarshalJSON_shape[of "''[\"192.168.3.0/24\"]''" ipv4_env NewBasicNet] j
    by simp
  have 3: "\<exists>wl'. BasicNet_UnmarshalJSON ipv4_env ''192.168.3.1/24,127.0.0.1/32'' NewBasicNet =
     Inr (Some ''whitelist.BasicNet: invalid whitelist'', wl')"
    using UnmarshalJSON_shape[of "''192.168.3.1/24,127.0.0.1/32''" ipv4_env NewBasicNet]
    by simp
  have a: "asciiSpace (last ''\"192.168.3.0/24\" '')" by (simp add: asciiSpace_def)
  have n: "''\"192.168.3.0/24\" '' \<noteq> [] \<and> ''\"192.168.3.0/24\" '' \<noteq> ''\"''" by simp
  have 4: "\<exists>wl'. BasicNet_UnmarshalJSON ipv4_env ''\"192.168.3.0/24\" '' NewBasicNet =
     Inr (Some ''whitelist.BasicNet: invalid whitelist'', wl')"
    using UnmarshalJSON_shape[of "''\"192.168.3.0/24\" ''" ipv4_env NewBasicNet] a n
    by blast
  from 1 2 3 a 4 j show ?thesis by simp
qed

text \<open>
  C6 as it is stated fails on an encoding with white space around it: the same
  encodings are decoded without the space and refused with it.
\<close>

theorem UnmarshalJSON_refuses_outer_space:
  "BasicNet_UnmarshalJSON ipv4_env '' \"192.168.3.0/24\"'' NewBasicNet =
     Inr (Some ''whitelist.BasicNet: invalid whitelist'', NewBasicNet) \<and>
   BasicNet_UnmarshalJSON ipv4_env ''[\"192.168.3.0/24\"] '' NewBasicNet =
     Inr (Some ''whitelist.BasicNet: invalid whitelist'', NewBasicNet) \<and>
   BasicNet_UnmarshalJSON ipv4_env ''\"192.168.3.0/24\"'' NewBasicNet =
     Inr (None, \<lparr>jsonFormat = JsonFormatCompatibility, whitelist = [Some net_3]\<rparr>) \<and>
   BasicNet_UnmarshalJSON ipv4_env ''[\"192.168.3.0/24\"]'' NewBasicNet =
     Inr (None, \<lparr>jsonFormat = JsonFormatCompatibility, whitelist = [Some net_3]\<rparr>)"
  by code_simp

subsection \<open>C7: empty elements of the new format\<close>

text \<open>
  C7, amended: on an input of the new format that \<open>json.Unmarshal\<close> decodes to a list of
  strings, the elements that are empty once trimmed are skipped, as in the compatibility
  format. \<open>UnmarshalJSON\<close> returns a parse error, which names the trimmed element, and
  empties the whitelist when some element that is not empty once trimmed fails to parse;
  otherwise it succeeds, with as many entries as there are elements that are not empty.
\<close>

theorem UnmarshalJSON_new_format:
  assumes "inp \<noteq> []" and "hd inp = CHR ''[''" and "last inp = CHR '']''"
    and "json_Unmarshal E inp = Inr nets"
  shows "((\<exists>s\<in>set nets. TrimSpace s \<noteq> [] \<and> net_ParseCIDR E (TrimSpace s) = None) \<longrightarrow>
            (\<exists>addr wl'. BasicNet_UnmarshalJSON E inp wl =
                 Inr (Some (''whitelist.BasicNet: invalid IP network '' @ addr), wl') \<and>
               whitelist wl' = [] \<and>
               (\<exists>s\<in>set nets. addr = TrimSpace s \<and> addr \<noteq> [] \<and> net_ParseCIDR E addr = None))) \<and>
         ((\<forall>s\<in>set nets. TrimSpace s = [] \<or> net_ParseCIDR E (TrimSpace s) \<noteq> None) \<longrightarrow>
            (\<exists>wl'. BasicNet_UnmarshalJSON E inp wl = Inr (None, wl') \<and>
               length (whitelist wl') = length nets - empty_tokens nets))"
proof -
  have u: "BasicNet_UnmarshalJSON E inp wl = Inr (store_nets E nets wl)"
    using assms by (simp add: Let_def)
  show ?thesis
  proof (intro conjI impI)
    assume "\<exists>s\<in>set nets. TrimSpace s \<noteq> [] \<and> net_ParseCIDR E (TrimSpace s) = None"
    from store_nets_error[OF this, of wl] u
    show "\<exists>addr wl'. BasicNet_UnmarshalJSON E inp wl =
                 Inr (Some (''whitelist.BasicNet: invalid IP network '' @ addr), wl') \<and>
               whitelist wl' = [] \<and>
               (\<exists>s\<in>set nets. addr = TrimSpace s \<and> addr \<noteq> [] \<and> net_ParseCIDR E addr = None)"
      by force
  next
    assume "\<forall>s\<in>set nets. TrimSpace s = [] \<or> net_ParseCIDR E (TrimSpace s) \<noteq> None"
    from store_nets_ok[OF this, of wl] u
    show "\<exists>wl'. BasicNet_UnmarshalJSON E inp wl = Inr (None, wl') \<and>
               length (whitelist wl') = length nets - empty_tokens nets"
      by (simp add: parsed_slots_def)
  qed
qed

text \<open>
  The theorem on an array whose last element has no prefix length, and on an array of a
  network and an empty string.
\<close>

theorem UnmarshalJSON_new_format_witness:
  "json_Unmarshal ipv4_env ''[\"192.168.3.0/24\",\"\",\"192.168.7.0\"]'' =
     Inr [''192.168.3.0/24'', [], ''192.168.7.0''] \<and>
   (\<exists>wl'. BasicNet_UnmarshalJSON ipv4_env ''[\"192.168.3.0/24\",\"\",\"192.168.7.0\"]''
       \<lparr>jsonFormat = JsonFormatNew, whitelist = [Some net_7]\<rparr> =
       Inr (Some ''whitelist.BasicNet: invalid IP network 192.168.7.0'', wl') \<and>
     whitelist wl' = []) \<and>
   json_Unmarshal ipv4_env ''[\"192.168.3.0/24\",\"\"]'' = Inr [''192.168.3.0/24'', []] \<and>
   (\<exists>wl'. BasicNet_UnmarshalJSON ipv4_env ''[\"192.168.3.0/24\",\"\"]''
       \<lparr>jsonFormat = JsonFormatNew, whitelist = [Some net_7]\<rparr> = Inr (None, wl') \<and>
     length (whitelist wl') = 1)"
proof -
  let ?wl = "\<lparr>jsonFormat = JsonFormatNew, whitelist = [Some net_7]\<rparr>"
  let ?bad = "''[\"192.168.3.0/24\",\"\",\"192.168.7.0\"]''"
  let ?good = "''[\"192.168.3.0/24\",\"\"]''"
  have jb: "json_Unmarshal ipv4_env ?bad = Inr [''192.168.3.0/24'', [], ''192.168.7.0'']"
    by code_simp
  have jg: "json_Unmarshal ipv4_env ?good = Inr [''192.168.3.0/24'', []]"
    by code_simp
  have t: "TrimSpace ''192.168.3.0/24'' = ''192.168.3.0/24''" "TrimSpace [] = []"
    "TrimSpace ''192.168.7.0'' = ''192.168.7.0''"
    by code_simp+
  have p: "net_ParseCIDR ipv4_env ''192.168.3.0/24'' = Some net_3"
    "net_ParseCIDR ipv4_env ''192.168.7.0'' = None"
    by code_simp+
  have e: "empty_tokens [''192.168.3.0/24'', []] = 1"
    using t by (simp add: empty_tokens_def)
  have hb: "?bad \<noteq> [] \<and> hd ?bad = CHR ''['' \<and> last ?bad = CHR '']''" by simp
  have hg: "?good \<noteq> [] \<and> hd ?good = CHR ''['' \<and> last ?good = CHR '']''" by simp
  have "\<exists>addr wl'. BasicNet_UnmarshalJSON ipv4_env ?bad ?wl =
                 Inr (Some (''whitelist.BasicNet: invalid IP network '' @ addr), wl') \<and>
               whitelist wl' = [] \<and>
               (\<exists>s\<in>set [''192.168.3.0/24'', [], ''192.168.7.0''].
                   addr = TrimSpace s \<and> addr \<noteq> [] \<and> net_ParseCIDR ipv4_env addr = None)"
    using UnmarshalJSON_new_format[of ?bad ipv4_env "[''192.168.3.0/24'', [], ''192.168.7.0'']" ?wl]
      hb jb t p by simp
  then have 1: "\<exists>wl'. BasicNet_UnmarshalJSON ipv4_env ?bad ?wl =
       Inr (Some ''whitelist.BasicNet: invalid IP network 192.168.7.0'', wl') \<and> whitelist wl' = []"
    using t p by auto
  have 2: "\<exists>wl'. BasicNet_UnmarshalJSON ipv4_env ?good ?wl = Inr (None, wl') \<and>
     length (whitelist wl') = 1"
    using UnmarshalJSON_new_format[of ?good ipv4_env "[''192.168.3.0/24'', []]" ?wl]
      hg jg t p e by simp
  from jb jg 1 2 show ?thesis by blast
qed

text \<open>
  C7 as it is stated fails on the array of one empty string: the empty string does not
  parse as a CIDR, and \<open>UnmarshalJSON\<close> succeeds with no entry.
\<close>

theorem UnmarshalJSON_new_format_skips_empty:
  "net_ParseCIDR ipv4_env [] = None \<and>
   BasicNet_UnmarshalJSON ipv4_env ''[\"\"]'' (NewBasicNet2 JsonFormatNew) =
     Inr (None, \<lparr>jsonFormat = JsonFormatNew, whitelist = []\<rparr>)"
  by code_simp

subsection \<open>C8: Remove\<close>

text \<open>
  C8: \<open>Remove\<close> of the nil pointer leaves the whitelist as it is; so does \<open>Remove\<close> of a
  network whose string no entry has; and when some entry has the string of the network,
  \<open>Remove\<close> deletes the first such entry and keeps every other entry, in the same order.
\<close>

theorem Remove_first_match:
  "BasicNet_Remove E None wl = wl \<and>
   ((\<forall>e\<in>set (whitelist wl). IPNet_String E e \<noteq> IPNet_String E (Some n)) \<longrightarrow>
      BasicNet_Remove E (Some n) wl = wl) \<and>
   ((\<exists>e\<in>set (whitelist wl). IPNet_String E e = IPNet_String E (Some n)) \<longrightarrow>
      (\<exists>pre e post. whitelist wl = pre @ e # post \<and>
         (\<forall>x\<in>set pre. IPNet_String E x \<noteq> IPNet_String E (Some n)) \<and>
         IPNet_String E e = IPNet_String E (Some n) \<and>
         BasicNet_Remove E (Some n) wl = wl\<lparr>whitelist := pre @ post\<rparr>))"
proof (intro conjI impI)
  show "BasicNet_Remove E None wl = wl" by (simp add: BasicNet_Remove_def)
next
  assume "\<forall>e\<in>set (whitelist wl). IPNet_String E e \<noteq> IPNet_String E (Some n)"
  then have "remove_index E (Some n) (whitelist wl) 0 = None"
    by (simp add: remove_index_None)
  then show "BasicNet_Remove E (Some n) wl = wl" by (simp add: BasicNet_Remove_def)
next
  assume "\<exists>e\<in>set (whitelist wl). IPNet_String E e = IPNet_String E (Some n)"
  then have "remove_index E (Some n) (whitelist wl) 0 \<noteq> None"
    by (simp add: remove_index_None)
  then obtain k where k: "remove_index E (Some n) (whitelist wl) 0 = Some k" by blast
  from remove_index_Some[OF this] obtain pre e post where
    h: "whitelist wl = pre @ e # post" "k = length pre"
       "IPNet_String E e = IPNet_String E (Some n)"
       "\<forall>x\<in>set pre. IPNet_String E x \<noteq> IPNet_String E (Some n)" by auto
  have "BasicNet_Remove E (Some n) wl = wl\<lparr>whitelist := pre @ post\<rparr>"
    using k h(1,2) by (simp add: BasicNet_Remove_def)
  with h show "\<exists>pre e post. whitelist wl = pre @ e # post \<and>
         (\<forall>x\<in>set pre. IPNet_String E x \<noteq> IPNet_String E (Some n)) \<and>
         IPNet_String E e = IPNet_String E (Some n) \<and>
         BasicNet_Remove E (Some n) wl = wl\<lparr>whitelist := pre @ post\<rparr>" by blast
qed

text \<open>
  The theorem on a whitelist that holds \<open>192.168.3.0/24\<close> twice: the first occurrence
  goes; and on a whitelist that does not hold it.
\<close>

theorem Remove_first_match_witness:
  "(\<exists>e\<in>set [Some net_7, Some net_3, Some net_7, Some net_3].
      IPNet_String ipv4_env e = IPNet_String ipv4_env (Some net_3)) \<and>
   BasicNet_Remove ipv4_env (Some net_3)
     \<lparr>jsonFormat = JsonFormatCompatibility,
      whitelist = [Some net_7, Some net_3, Some net_7, Some net_3]\<rparr> =
     \<lparr>jsonFormat = JsonFormatCompatibility, whitelist = [Some net_7, Some net_7, Some net_3]\<rparr> \<and>
   BasicNet_Remove ipv4_env (Some net_3)
     \<lparr>jsonFormat = JsonFormatCompatibility, whitelist = [Some net_7]\<rparr> =
     \<lparr>jsonFormat = JsonFormatCompatibility, whitelist = [Some net_7]\<rparr>"
proof -
  let ?wl = "\<lparr>jsonFormat = JsonFormatCompatibility,
      whitelist = [Some net_7, Some net_3, Some net_7, Some net_3]\<rparr>"
  let ?wl1 = "\<lparr>jsonFormat = JsonFormatCompatibility, whitelist = [Some net_7]\<rparr>"
  have s: "IPNet_String ipv4_env (Some net_7) \<noteq> IPNet_String ipv4_env (Some net_3)"
    by code_simp
  have e: "\<exists>e\<in>set (whitelist ?wl). IPNet_String ipv4_env e = IPNet_String ipv4_env (Some net_3)"
    by simp
  from Remove_first_match[of ipv4_env ?wl net_3] e obtain pre x post where
    h: "whitelist ?wl = pre @ x # post"
       "\<forall>y\<in>set pre. IPNet_String ipv4_env y \<noteq> IPNet_String ipv4_env (Some net_3)"
       "IPNet_String ipv4_env x = IPNet_String ipv4_env (Some net_3)"
       "BasicNet_Remove ipv4_env (Some net_3) ?wl = ?wl\<lparr>whitelist := pre @ post\<rparr>"
    by blast
  from h(1) have "pre = [] \<or> pre = [Some net_7] \<or> (\<exists>t. pre = Some net_7 # Some net_3 # t)"
    by (cases pre; cases "tl pre") auto
  with h(2) s h(3) h(1) have "pre = [Some net_7]" by auto
  with h(1) have "post = [Some net_7, Some net_3]" by auto
  with h(4) \<open>pre = [Some net_7]\<close> have 1: "BasicNet_Remove ipv4_env (Some net_3) ?wl =
     \<lparr>jsonFormat = JsonFormatCompatibility, whitelist = [Some net_7, Some net_7, Some net_3]\<rparr>"
    by simp
  have "\<forall>e\<in>set (whitelist ?wl1). IPNet_String ipv4_env e \<noteq> IPNet_String ipv4_env (Some net_3)"
    using s by simp
  with Remove_first_match[of ipv4_env ?wl1 net_3]
  have 2: "BasicNet_Remove ipv4_env (Some net_3) ?wl1 = ?wl1" by blast
  from e 1 2 show ?thesis by simp
qed

subsection \<open>C9: nil entries\<close>

text \<open>
  C9 says that no entry is nil after any sequence of \<open>Add\<close>, \<open>Remove\<close> and successful
  \<open>UnmarshalJSON\<close>. \<open>Add\<close> and \<open>Remove\<close> keep it so (\<open>Add_keeps_entries_non_nil\<close>,
  \<open>Remove_keeps_entries_non_nil\<close>), but \<open>UnmarshalJSON\<close> does not: on \<open>",192.168.3.0/24"\<close>
  it succeeds and the whitelist holds one entry, the nil pointer, on which \<open>Permitted\<close>
  panics.
\<close>

theorem UnmarshalJSON_stores_nil_entry:
  "BasicNet_UnmarshalJSON ipv4_env ''\",192.168.3.0/24\"'' NewBasicNet =
     Inr (None, \<lparr>jsonFormat = JsonFormatCompatibility, whitelist = [None]\<rparr>) \<and>
   BasicNet_Permitted ipv4_env \<lparr>jsonFormat = JsonFormatCompatibility, whitelist = [None]\<rparr>
     [192, 168, 3, 1] = Inl NilDereference"
  by code_simp

subsection \<open>C10: the first and the last byte of the input\<close>

text \<open>
  C10 says that \<open>UnmarshalJSON\<close> reads the first and the last byte of every input within
  bounds. On the empty input the read of \<open>in[0]\<close> panics, and on the single byte \<open>"\<close>
  the slice \<open>in[1:0]\<close> does, in every environment and on every whitelist.
\<close>

theorem UnmarshalJSON_short_input_panics:
  "BasicNet_UnmarshalJSON E [] wl = Inl IndexOutOfRange \<and>
   BasicNet_UnmarshalJSON E ''\"'' wl = Inl SliceBoundsOutOfRange"
  by simp

end
